theory Spec2Isabelle
  imports Main "HOL-Library.Word" "HOL-Library.Multiset"
begin

section \<open>The ChatBot object and its handles\<close>

text \<open>
  A \<open>ChatBot\<close> holds four data handles, all raw pointers: \<open>_image\<close> (a \<open>wxBitmap *\<close>),
  \<open>_currentNode\<close> and \<open>_rootNode\<close> (\<open>GraphNode *\<close>) and \<open>_chatLogic\<close> (\<open>ChatLogic *\<close>).
  A pointer is an address or null: \<open>None\<close> is \<open>nullptr\<close> (and \<open>NULL\<close>). The lines the
  special member functions print to \<open>std::cout\<close> are left out of the model.
\<close>

type_synonym addr = nat
type_synonym ptr = "addr option"

record ChatBot =
  image :: ptr
  currentNode :: ptr
  rootNode :: ptr
  chatLogic :: ptr

text \<open>
  The move operations write to two objects, \<open>*this\<close> and \<open>source\<close>, which the move
  assignment operator compares by address. The objects therefore live in a store, a map
  from addresses to objects, and every assignment of the source is one update of it.
\<close>

type_synonym bots = "addr \<Rightarrow> ChatBot"

definition set_image :: "bots \<Rightarrow> addr \<Rightarrow> ptr \<Rightarrow> bots" where
  "set_image s a v = s(a := (s a)\<lparr>image := v\<rparr>)"

definition set_currentNode :: "bots \<Rightarrow> addr \<Rightarrow> ptr \<Rightarrow> bots" where
  "set_currentNode s a v = s(a := (s a)\<lparr>currentNode := v\<rparr>)"

definition set_rootNode :: "bots \<Rightarrow> addr \<Rightarrow> ptr \<Rightarrow> bots" where
  "set_rootNode s a v = s(a := (s a)\<lparr>rootNode := v\<rparr>)"

definition set_chatLogic :: "bots \<Rightarrow> addr \<Rightarrow> ptr \<Rightarrow> bots" where
  "set_chatLogic s a v = s(a := (s a)\<lparr>chatLogic := v\<rparr>)"

text \<open>
  The body shared by \<open>ChatBot::ChatBot(ChatBot &&source)\<close> and the move assignment
  operator: four handle copies from \<open>source\<close> to \<open>this\<close>, then four writes of null to
  \<open>source\<close>, in the order of the source text. Every read is from the store as it is at
  that statement.
\<close>

definition move_handles :: "bots \<Rightarrow> addr \<Rightarrow> addr \<Rightarrow> bots" where
  "move_handles s0 this source =
     (let s1 = set_image s0 this (image (s0 source));
          s2 = set_currentNode s1 this (currentNode (s1 source));
          s3 = set_rootNode s2 this (rootNode (s2 source));
          s4 = set_chatLogic s3 this (chatLogic (s3 source));
          s5 = set_image s4 source None;
          s6 = set_currentNode s5 source None;
          s7 = set_rootNode s6 source None;
          s8 = set_chatLogic s7 source None
      in s8)"

definition move_constructor :: "bots \<Rightarrow> addr \<Rightarrow> addr \<Rightarrow> bots" where
  "move_constructor s this source = move_handles s this source"

text \<open>\<open>operator=(ChatBot &&source)\<close> returns at once when \<open>this == &source\<close>.\<close>

definition move_assign :: "bots \<Rightarrow> addr \<Rightarrow> addr \<Rightarrow> bots" where
  "move_assign s this source = (if this = source then s else move_handles s this source)"

definition null_bot :: ChatBot where
  "null_bot = \<lparr>image = None, currentNode = None, rootNode = None, chatLogic = None\<rparr>"

section \<open>The matcher: \<open>ChatBot::ComputeLevenshteinDistance\<close>\<close>

text \<open>
  \<open>std::string\<close> is a sequence of bytes: \<open>string\<close>, a list of 8-bit \<open>char\<close>. \<open>::toupper\<close>
  is the C library's, taken in the "C" locale: the letters \<open>a\<close> to \<open>z\<close> (97 to 122) move
  down by 32, every other byte is returned as it is.
\<close>

definition toupper :: "char \<Rightarrow> char" where
  "toupper c =
     (let n = (of_char c :: nat) in if 97 \<le> n \<and> n \<le> 122 then char_of (n - 32) else c)"

text \<open>
  The function computes in \<open>size_t\<close> and returns \<open>int\<close>. A \<open>size_t\<close> value is modelled by
  the natural number it holds; no sum in the function exceeds \<open>m + 1\<close> or \<open>n + 1\<close>, so
  nothing wraps in \<open>size_t\<close>. The conversion to the 32-bit \<open>int\<close> of the return type
  (\<open>return n\<close>, \<open>return m\<close>, \<open>int result = costs[n]\<close>) keeps the low 32 bits and reads
  them as two's complement.
\<close>

definition int_of_size_t :: "nat \<Rightarrow> int" where
  "int_of_size_t n = sint (word_of_nat n :: 32 word)"

text \<open>
  The inner \<open>for\<close> loop over \<open>s2\<close>, for one character \<open>c1 = *it1\<close> of \<open>s1\<close>: the rest of
  \<open>s2\<close> from \<open>it2\<close>, the index \<open>j\<close>, \<open>corner\<close> and the array \<open>costs\<close>. The indices
  \<open>j\<close> and \<open>j + 1\<close> stay within the \<open>n + 1\<close> cells of the array.
\<close>

fun inner_loop :: "char \<Rightarrow> string \<Rightarrow> nat \<Rightarrow> nat \<Rightarrow> nat list \<Rightarrow> nat list" where
  "inner_loop c1 [] j corner costs = costs"
| "inner_loop c1 (c2 # rest) j corner costs =
     (let upper = costs ! (j + 1);
          costs' =
            (if c1 = c2 then costs[j + 1 := corner]
             else (let t = (if upper < corner then upper else corner)
                   in costs[j + 1 := (if costs ! j < t then costs ! j else t) + 1]))
      in inner_loop c1 rest (j + 1) upper costs')"

text \<open>The outer loop over \<open>s1\<close>: the rest of \<open>s1\<close> from \<open>it1\<close>, and the index \<open>i\<close>.\<close>

fun outer_loop :: "string \<Rightarrow> string \<Rightarrow> nat \<Rightarrow> nat list \<Rightarrow> nat list" where
  "outer_loop [] s2 i costs = costs"
| "outer_loop (c1 # rest) s2 i costs =
     outer_loop rest s2 (i + 1) (inner_loop c1 s2 0 i (costs[0 := i + 1]))"

definition ComputeLevenshteinDistance :: "string \<Rightarrow> string \<Rightarrow> int" where
  "ComputeLevenshteinDistance s1 s2 =
     (let s1 = map toupper s1; s2 = map toupper s2;
          m = length s1; n = length s2
      in if m = 0 then int_of_size_t n
         else if n = 0 then int_of_size_t m
         else int_of_size_t (outer_loop s1 s2 0 [0..<n + 1] ! n))"

section \<open>The edit distance of the specification\<close>

text \<open>
  The specification's words: the Levenshtein edit distance is the minimum number of
  single-character insertions, deletions and substitutions that turn one string into the
  other. \<open>edit1 xs ys\<close>: one such edit, at any position, turns \<open>xs\<close> into \<open>ys\<close>.
\<close>

inductive edit1 :: "'a list \<Rightarrow> 'a list \<Rightarrow> bool" where
  insert: "edit1 xs (c # xs)"
| delete: "edit1 (c # xs) xs"
| substitute: "c \<noteq> d \<Longrightarrow> edit1 (c # xs) (d # xs)"
| later: "edit1 xs ys \<Longrightarrow> edit1 (c # xs) (c # ys)"

text \<open>\<open>edits k xs ys\<close>: a sequence of \<open>k\<close> edits turns \<open>xs\<close> into \<open>ys\<close>.\<close>

inductive edits :: "nat \<Rightarrow> 'a list \<Rightarrow> 'a list \<Rightarrow> bool" where
  none: "edits 0 xs xs"
| more: "edit1 xs ys \<Longrightarrow> edits k ys zs \<Longrightarrow> edits (Suc k) xs zs"

text \<open>
  \<open>d\<close> is the edit distance of \<open>xs\<close> and \<open>ys\<close>: \<open>d\<close> edits turn \<open>xs\<close> into \<open>ys\<close>, and no
  fewer do.
\<close>

definition levenshtein_distance :: "nat \<Rightarrow> 'a list \<Rightarrow> 'a list \<Rightarrow> bool" where
  "levenshtein_distance d xs ys \<longleftrightarrow> edits d xs ys \<and> (\<forall>k. edits k xs ys \<longrightarrow> d \<le> k)"

text \<open>
  Two tools of the proof: the textbook recurrence \<open>lev\<close> over the heads of the two
  strings, and the row of the dynamic programme for a prefix \<open>p\<close> of the first string,
  which holds the distance from \<open>p\<close> to every prefix of the second.
\<close>

fun lev :: "'a list \<Rightarrow> 'a list \<Rightarrow> nat" where
  "lev [] ys = length ys"
| "lev (x # xs) [] = length (x # xs)"
| "lev (x # xs) (y # ys) =
     min (min (lev xs (y # ys) + 1) (lev (x # xs) ys + 1)) (lev xs ys + (if x = y then 0 else 1))"

definition row :: "'a list \<Rightarrow> 'a list \<Rightarrow> nat list" where
  "row p s2 = map (\<lambda>k. lev p (take k s2)) [0..<length s2 + 1]"

section \<open>The conversation graph\<close>

text \<open>
  Modelled from the spec: the declarations of \<open>GraphNode\<close> and \<open>GraphEdge\<close>
  (\<open>graphnode.h\<close>, \<open>graphedge.h\<close>) are not among the sources. Following section 3 of the
  specification, a Topic (\<open>GraphNode\<close>) has an ordered collection of response texts
  (\<open>GetAnswers\<close>) and an ordered list of outgoing Transitions (\<open>GetNumberOfChildEdges\<close>,
  \<open>GetChildEdgeAtIndex\<close>); a Transition (\<open>GraphEdge\<close>) has its keywords (\<open>GetKeywords\<close>, the field \<open>edgeKeywords\<close>)
  and a destination Topic (\<open>GetChildNode\<close>). Nodes and edges are reached through
  pointers, so the graph is a pair of stores.
\<close>

record GraphEdge =
  edgeKeywords :: "string list"
  childNode :: ptr

record GraphNode =
  childEdges :: "addr list"
  answers :: "string list"

record Graph =
  nodes :: "addr \<rightharpoonup> GraphNode"
  edges :: "addr \<rightharpoonup> GraphEdge"

text \<open>
  The state a turn runs in: the \<open>ChatBot\<close> object, the graph, and the texts handed so
  far to \<open>ChatLogic::SendMessageToUser\<close> (the output sink), oldest first.
\<close>

record world =
  bot :: ChatBot
  graph :: Graph
  sent :: "string list"

text \<open>
  A turn ends normally or in a failure: \<open>InvalidPointer\<close> is the dereference of a null
  pointer or of an address that holds no object, \<open>OutOfRange\<close> is the
  \<open>std::out_of_range\<close> thrown by \<open>vector::at\<close>, and \<open>UndefinedBehaviour\<close> is a call
  of the standard library outside its precondition, after which the C++ standard
  promises nothing (no exception, no return). A failure carries the state as it was when
  the failure happened.
\<close>

datatype error = InvalidPointer | OutOfRange | UndefinedBehaviour

type_synonym outcome = "(error \<times> world) + world"

section \<open>\<open>ChatBot::SetCurrentNode\<close>\<close>

text \<open>
  The value \<open>dis(generator)\<close> of a \<open>std::uniform_int_distribution<int> dis(lo, hi)\<close> over
  a \<open>std::mt19937\<close> seeded with the clock is an input of the model: \<open>rnd lo hi\<close> is the
  number drawn. The library promises \<open>lo \<le> rnd lo hi \<le> hi\<close> when \<open>lo \<le> hi\<close>. The
  precondition of the distribution is \<open>lo \<le> hi\<close>: with \<open>hi < lo\<close> its behaviour is
  undefined (in the GNU library the draw recurses without end), and no number is drawn.
\<close>

type_synonym draw = "int \<Rightarrow> int \<Rightarrow> int"

definition uniform_int_distribution :: "draw \<Rightarrow> bool" where
  "uniform_int_distribution rnd \<longleftrightarrow> (\<forall>lo hi. lo \<le> hi \<longrightarrow> lo \<le> rnd lo hi \<and> rnd lo hi \<le> hi)"

text \<open>
  \<open>answers.size() - 1\<close> is computed in the 64-bit \<open>size_t\<close>, where it wraps at zero, and
  is then converted to the \<open>int\<close> bound \<open>hi\<close> of the distribution, whose lower bound is
  0. A bound \<open>hi < 0\<close> breaks the precondition, and the call ends in
  \<open>UndefinedBehaviour\<close> before anything is drawn or sent. \<open>answers.at(k)\<close> takes the
  drawn \<open>int\<close> as a \<open>size_t\<close> (a negative number becomes a huge index) and throws unless
  the index is below the size.
\<close>

definition size_minus_one :: "nat \<Rightarrow> nat" where
  "size_minus_one n = (n + 2 ^ 64 - 1) mod 2 ^ 64"

definition SetCurrentNode :: "draw \<Rightarrow> world \<Rightarrow> ptr \<Rightarrow> outcome" where
  "SetCurrentNode rnd w node =
     (let w1 = w\<lparr>bot := (bot w)\<lparr>currentNode := node\<rparr>\<rparr> in
      case node of
        None \<Rightarrow> Inl (InvalidPointer, w1)
      | Some a \<Rightarrow>
          (case nodes (graph w1) a of
             None \<Rightarrow> Inl (InvalidPointer, w1)
           | Some n \<Rightarrow>
               (let hi = int_of_size_t (size_minus_one (length (answers n))) in
                if hi < 0 then Inl (UndefinedBehaviour, w1)
                else
                  (let k = rnd 0 hi in
                   if 0 \<le> k \<and> nat k < length (answers n) then
                     (case chatLogic (bot w1) of
                        None \<Rightarrow> Inl (InvalidPointer, w1)
                      | Some c \<Rightarrow> Inr (w1\<lparr>sent := sent w1 @ [answers n ! nat k]\<rparr>))
                   else Inl (OutOfRange, w1)))))"

section \<open>\<open>ChatBot::ReceiveMessageFromUser\<close>\<close>

type_synonym EdgeDist = "addr \<times> int"

text \<open>The range-based \<open>for\<close> over the keywords of one edge, pushing onto \<open>levDists\<close>.\<close>

fun keyword_loop :: "addr \<Rightarrow> string list \<Rightarrow> string \<Rightarrow> EdgeDist list \<Rightarrow> EdgeDist list" where
  "keyword_loop edge [] message levDists = levDists"
| "keyword_loop edge (keyword # rest) message levDists =
     keyword_loop edge rest message
       (levDists @ [(edge, ComputeLevenshteinDistance keyword message)])"

text \<open>The loop over the child edges of the current node, by index.\<close>

function edge_loop ::
  "Graph \<Rightarrow> GraphNode \<Rightarrow> nat \<Rightarrow> string \<Rightarrow> EdgeDist list \<Rightarrow> error + EdgeDist list" where
  "edge_loop g node i message levDists =
     (if i < length (childEdges node) then
        (case edges g (childEdges node ! i) of
           None \<Rightarrow> Inl InvalidPointer
         | Some e \<Rightarrow>
             edge_loop g node (i + 1) message
               (keyword_loop (childEdges node ! i) (edgeKeywords e) message levDists))
      else Inr levDists)"
  by pat_completeness auto
termination
  by (relation "measure (\<lambda>(g, node, i, message, levDists). length (childEdges node) - i)") auto

declare edge_loop.simps [simp del]

text \<open>
  \<open>std::sort\<close> with the comparison \<open>a.second < b.second\<close> is the standard library's: the
  model takes it as a parameter \<open>srt\<close>. The standard promises that the result is a
  rearrangement of the range in which no element is followed by one of smaller distance;
  it promises nothing about the order of elements of equal distance.
\<close>

type_synonym sorter = "EdgeDist list \<Rightarrow> EdgeDist list"

definition std_sort :: "sorter \<Rightarrow> bool" where
  "std_sort srt \<longleftrightarrow> (\<forall>xs. mset (srt xs) = mset xs \<and> sorted (map snd (srt xs)))"

text \<open>
  The choice of \<open>newNode\<close>: the child node of the edge at the front of the sorted
  vector, or the root node when the vector is empty.
\<close>

definition select_newNode :: "sorter \<Rightarrow> Graph \<Rightarrow> ChatBot \<Rightarrow> EdgeDist list \<Rightarrow> error + ptr" where
  "select_newNode srt g b levDists =
     (if length levDists > 0 then
        (case srt levDists of
           [] \<Rightarrow> Inl OutOfRange
         | best # others \<Rightarrow>
             (case edges g (fst best) of
                None \<Rightarrow> Inl InvalidPointer
              | Some e \<Rightarrow> Inr (childNode e)))
      else Inr (rootNode b))"

text \<open>
  \<open>GraphNode::MoveChatbotToNewNode\<close> is not among the sources: the function takes it as
  the parameter \<open>move\<close>, applied to the state and to \<open>newNode\<close>.
\<close>

definition ReceiveMessageFromUser ::
  "sorter \<Rightarrow> (world \<Rightarrow> ptr \<Rightarrow> outcome) \<Rightarrow> world \<Rightarrow> string \<Rightarrow> outcome" where
  "ReceiveMessageFromUser srt move w message =
     (case currentNode (bot w) of
        None \<Rightarrow> Inl (InvalidPointer, w)
      | Some a \<Rightarrow>
          (case nodes (graph w) a of
             None \<Rightarrow> Inl (InvalidPointer, w)
           | Some node \<Rightarrow>
               (case edge_loop (graph w) node 0 message [] of
                  Inl e \<Rightarrow> Inl (e, w)
                | Inr levDists \<Rightarrow>
                    (case select_newNode srt (graph w) (bot w) levDists of
                       Inl e \<Rightarrow> Inl (e, w)
                     | Inr newNode \<Rightarrow> move w newNode))))"

text \<open>
  Modelled from the spec: \<open>GraphNode::MoveChatbotToNewNode\<close> (\<open>graphnode.cpp\<close>) is not
  among the sources. By section 4.3, steps 4 and 5, of the specification the engine's
  current Topic is set to the next Topic and the response is emitted on arrival there:
  the chatbot's \<open>SetCurrentNode\<close> runs on \<open>newNode\<close>.
\<close>

definition MoveChatbotToNewNode :: "draw \<Rightarrow> world \<Rightarrow> ptr \<Rightarrow> outcome" where
  "MoveChatbotToNewNode rnd w newNode = SetCurrentNode rnd w newNode"

text \<open>The state a turn leaves behind, whether it ended normally or not.\<close>

definition final_world :: "outcome \<Rightarrow> world" where
  "final_world r = (case r of Inl (e, w) \<Rightarrow> w | Inr w \<Rightarrow> w)"

section \<open>Sorting with and without stability\<close>


section \<open>\<open>std::sort\<close> in the GNU C++ library\<close>

text \<open>
  The project is built with the GNU compiler, whose library implements \<open>std::sort\<close> in
  \<open>bits/stl_algo.h\<close> as an introsort: ranges of more than 16 elements are partitioned
  around the median of three elements, and an insertion sort finishes the work. The
  functions below follow that file, on a vector given as a list and iterators given as
  indices; \<open>lst\<close> stands for the iterator \<open>__last\<close> and \<open>cutpos\<close> for \<open>__cut\<close>.
  \<open>dist_less\<close> is the comparison of the call, \<open>a.second < b.second\<close>.
\<close>

definition dist_less :: "EdgeDist \<Rightarrow> EdgeDist \<Rightarrow> bool" where
  "dist_less a b \<longleftrightarrow> snd a < snd b"

definition iter_swap :: "EdgeDist list \<Rightarrow> nat \<Rightarrow> nat \<Rightarrow> EdgeDist list" where
  "iter_swap xs i j = xs[i := xs ! j, j := xs ! i]"

text \<open>
  \<open>__unguarded_linear_insert\<close>: the value at \<open>lst\<close> moves down past every greater
  element. The library does not test for the front of the range, which its callers make
  unreachable; the test \<open>0 < lst\<close> only keeps the index a natural number.
\<close>

function linear_insert_loop :: "EdgeDist \<Rightarrow> EdgeDist list \<Rightarrow> nat \<Rightarrow> EdgeDist list" where
  "linear_insert_loop val xs lst =
     (if 0 < lst \<and> dist_less val (xs ! (lst - 1))
      then linear_insert_loop val (xs[lst := xs ! (lst - 1)]) (lst - 1)
      else xs[lst := val])"
  by pat_completeness auto
termination
  by (relation "measure (\<lambda>(val, xs, lst). lst)") auto

declare linear_insert_loop.simps [simp del]

definition unguarded_linear_insert :: "EdgeDist list \<Rightarrow> nat \<Rightarrow> EdgeDist list" where
  "unguarded_linear_insert xs lst = linear_insert_loop (xs ! lst) xs lst"

text \<open>
  \<open>__insertion_sort\<close>: an element smaller than the first one goes to the front and the
  elements before it move up by one (\<open>move_backward\<close>); any other element is inserted by
  \<open>__unguarded_linear_insert\<close>.
\<close>

function insertion_sort_loop :: "EdgeDist list \<Rightarrow> nat \<Rightarrow> nat \<Rightarrow> nat \<Rightarrow> EdgeDist list" where
  "insertion_sort_loop xs first i lst =
     (if i < lst then
        insertion_sort_loop
          (if dist_less (xs ! i) (xs ! first)
           then take first xs @ xs ! i # take (i - first) (drop first xs) @ drop (i + 1) xs
           else unguarded_linear_insert xs i)
          first (i + 1) lst
      else xs)"
  by pat_completeness auto
termination
  by (relation "measure (\<lambda>(xs, first, i, lst). lst - i)") auto

declare insertion_sort_loop.simps [simp del]

definition insertion_sort :: "EdgeDist list \<Rightarrow> nat \<Rightarrow> nat \<Rightarrow> EdgeDist list" where
  "insertion_sort xs first lst =
     (if first = lst then xs else insertion_sort_loop xs first (first + 1) lst)"

function unguarded_insertion_sort :: "EdgeDist list \<Rightarrow> nat \<Rightarrow> nat \<Rightarrow> EdgeDist list" where
  "unguarded_insertion_sort xs i lst =
     (if i < lst then unguarded_insertion_sort (unguarded_linear_insert xs i) (i + 1) lst
      else xs)"
  by pat_completeness auto
termination
  by (relation "measure (\<lambda>(xs, i, lst). lst - i)") auto

declare unguarded_insertion_sort.simps [simp del]

definition final_insertion_sort :: "EdgeDist list \<Rightarrow> nat \<Rightarrow> nat \<Rightarrow> EdgeDist list" where
  "final_insertion_sort xs first lst =
     (if lst - first > 16
      then unguarded_insertion_sort (insertion_sort xs first (first + 16)) (first + 16) lst
      else insertion_sort xs first lst)"

text \<open>
  \<open>__move_median_to_first\<close> and the two scans of \<open>__unguarded_partition\<close>. The
  library's scans are unguarded, since the pivot stops them; the tests
  \<open>first < length xs\<close> and \<open>0 < lst\<close> only keep the indices inside the list.
\<close>

definition move_median_to_first ::
  "EdgeDist list \<Rightarrow> nat \<Rightarrow> nat \<Rightarrow> nat \<Rightarrow> nat \<Rightarrow> EdgeDist list" where
  "move_median_to_first xs result a b c =
     (if dist_less (xs ! a) (xs ! b) then
        (if dist_less (xs ! b) (xs ! c) then iter_swap xs result b
         else if dist_less (xs ! a) (xs ! c) then iter_swap xs result c
         else iter_swap xs result a)
      else if dist_less (xs ! a) (xs ! c) then iter_swap xs result a
      else if dist_less (xs ! b) (xs ! c) then iter_swap xs result c
      else iter_swap xs result b)"

function scan_up :: "EdgeDist list \<Rightarrow> nat \<Rightarrow> nat \<Rightarrow> nat" where
  "scan_up xs first pivot =
     (if first < length xs \<and> dist_less (xs ! first) (xs ! pivot)
      then scan_up xs (first + 1) pivot else first)"
  by pat_completeness auto
termination
  by (relation "measure (\<lambda>(xs, first, pivot). length xs - first)") auto

declare scan_up.simps [simp del]

function scan_down :: "EdgeDist list \<Rightarrow> nat \<Rightarrow> nat \<Rightarrow> nat" where
  "scan_down xs lst pivot =
     (if 0 < lst \<and> dist_less (xs ! pivot) (xs ! lst)
      then scan_down xs (lst - 1) pivot else lst)"
  by pat_completeness auto
termination
  by (relation "measure (\<lambda>(xs, lst, pivot). lst)") auto

declare scan_down.simps [simp del]

lemma scan_down_le: "scan_down xs lst pivot \<le> lst"
proof (induction xs lst pivot rule: scan_down.induct)
  case (1 xs lst pivot)
  show ?case
  proof (cases "0 < lst \<and> dist_less (xs ! pivot) (xs ! lst)")
    case True
    with "1" have "scan_down xs (lst - 1) pivot \<le> lst - 1" by simp
    with True show ?thesis by (subst scan_down.simps) simp
  next
    case False
    then show ?thesis by (subst scan_down.simps) auto
  qed
qed

text \<open>
  \<open>__unguarded_partition\<close> returns the vector and the cut position;
  \<open>__unguarded_partition_pivot\<close> first moves the median of the second, the middle and the
  last element to the front, as the pivot.
\<close>

function unguarded_partition ::
  "EdgeDist list \<Rightarrow> nat \<Rightarrow> nat \<Rightarrow> nat \<Rightarrow> EdgeDist list \<times> nat" where
  "unguarded_partition xs first lst pivot =
     (let first1 = scan_up xs first pivot;
          lst1 = scan_down xs (lst - 1) pivot
      in if \<not> first1 < lst1 then (xs, first1)
         else unguarded_partition (iter_swap xs first1 lst1) (first1 + 1) lst1 pivot)"
  by pat_completeness auto
termination
proof (relation "measure (\<lambda>(xs, first, lst, pivot). lst)")
  show "wf (measure (\<lambda>(xs, first, lst, pivot). lst))" by simp
next
  fix xs :: "EdgeDist list" and first lst pivot first1 lst1
  assume f: "first1 = scan_up xs first pivot" and l: "lst1 = scan_down xs (lst - 1) pivot"
    and lt: "\<not> \<not> first1 < lst1"
  from l have "lst1 \<le> lst - 1" by (simp add: scan_down_le)
  with lt have "lst1 < lst" by simp
  then show "((iter_swap xs first1 lst1, first1 + 1, lst1, pivot), (xs, first, lst, pivot))
      \<in> measure (\<lambda>(xs, first, lst, pivot). lst)"
    by simp
qed

declare unguarded_partition.simps [simp del]

definition unguarded_partition_pivot ::
  "EdgeDist list \<Rightarrow> nat \<Rightarrow> nat \<Rightarrow> EdgeDist list \<times> nat" where
  "unguarded_partition_pivot xs first lst =
     (let mid = first + (lst - first) div 2;
          xs1 = move_median_to_first xs first (first + 1) mid (lst - 1)
      in unguarded_partition xs1 (first + 1) lst first)"

text \<open>
  \<open>__introsort_loop\<close>: the \<open>while\<close> loop with its recursive call on the upper part. When
  the depth limit is used up the library sorts the range with a heap sort
  (\<open>__partial_sort\<close>), which is a parameter here; \<open>sorted_range\<close> is one such sort of a
  range. \<open>lg\<close> is \<open>std::__lg\<close>, the binary logarithm rounded down.
\<close>

type_synonym range_sort = "EdgeDist list \<Rightarrow> nat \<Rightarrow> nat \<Rightarrow> EdgeDist list"

fun introsort_loop :: "range_sort \<Rightarrow> EdgeDist list \<Rightarrow> nat \<Rightarrow> nat \<Rightarrow> nat \<Rightarrow> EdgeDist list" where
  "introsort_loop partial_sort xs first lst 0 =
     (if lst - first > 16 then partial_sort xs first lst else xs)"
| "introsort_loop partial_sort xs first lst (Suc depth_limit) =
     (if lst - first > 16 then
        (case unguarded_partition_pivot xs first lst of
           (xs1, cutpos) \<Rightarrow>
             introsort_loop partial_sort
               (introsort_loop partial_sort xs1 cutpos lst depth_limit) first cutpos depth_limit)
      else xs)"

function lg :: "nat \<Rightarrow> nat" where
  "lg n = (if n < 2 then 0 else lg (n div 2) + 1)"
  by pat_completeness auto
termination
  by (relation "measure (\<lambda>n. n)") auto

declare lg.simps [simp del]

definition libstdcxx_sort :: "range_sort \<Rightarrow> sorter" where
  "libstdcxx_sort partial_sort xs =
     (if xs = [] then xs
      else final_insertion_sort
             (introsort_loop partial_sort xs 0 (length xs) (lg (length xs) * 2))
             0 (length xs))"

definition sorted_range :: range_sort where
  "sorted_range xs first lst =
     take first xs @ sort_key snd (take (lst - first) (drop first xs)) @ drop lst xs"

section \<open>Example graphs\<close>

text \<open>
  The graph of the specification's end-to-end scenario (a root Topic with the
  Transitions "weather" and "joke"), a Topic without response texts, a graph whose two
  Transitions are equally distant from the message \<open>aa\<close>, and a graph with seventeen
  keywords equally distant from the message \<open>a\<close>: one on the first Transition (to node
  1) and sixteen on the second (to node 2). \<open>low_draw\<close> and \<open>high_draw\<close> are two random
  sources: the least and the greatest number of the range.
\<close>

definition low_draw :: draw where
  "low_draw lo hi = lo"

definition edge_weather :: GraphEdge where
  "edge_weather = \<lparr>edgeKeywords = [''weather''], childNode = Some 1\<rparr>"

definition edge_joke :: GraphEdge where
  "edge_joke = \<lparr>edgeKeywords = [''joke'', ''funny''], childNode = Some 2\<rparr>"

definition node_root :: GraphNode where
  "node_root = \<lparr>childEdges = [0, 1], answers = [''Hi'']\<rparr>"

definition node_weather :: GraphNode where
  "node_weather = \<lparr>childEdges = [], answers = [''Sunny'', ''Rainy'']\<rparr>"

definition node_joke :: GraphNode where
  "node_joke = \<lparr>childEdges = [], answers = []\<rparr>"

definition example_graph :: Graph where
  "example_graph =
     \<lparr>nodes = [0 \<mapsto> node_root, 1 \<mapsto> node_weather, 2 \<mapsto> node_joke],
      edges = [0 \<mapsto> edge_weather, 1 \<mapsto> edge_joke]\<rparr>"

definition example_world :: world where
  "example_world =
     \<lparr>bot = \<lparr>image = Some 7, currentNode = Some 0, rootNode = Some 0, chatLogic = Some 9\<rparr>,
      graph = example_graph, sent = []\<rparr>"

definition edge_ab :: GraphEdge where
  "edge_ab = \<lparr>edgeKeywords = [''ab''], childNode = Some 1\<rparr>"

definition edge_ba :: GraphEdge where
  "edge_ba = \<lparr>edgeKeywords = [''ba''], childNode = Some 2\<rparr>"

definition tie_graph :: Graph where
  "tie_graph =
     \<lparr>nodes = [0 \<mapsto> node_root, 1 \<mapsto> node_weather, 2 \<mapsto> node_weather],
      edges = [0 \<mapsto> edge_ab, 1 \<mapsto> edge_ba]\<rparr>"

definition tie_world :: world where
  "tie_world =
     \<lparr>bot = \<lparr>image = Some 7, currentNode = Some 0, rootNode = Some 0, chatLogic = Some 9\<rparr>,
      graph = tie_graph, sent = []\<rparr>"

definition edge_b :: GraphEdge where
  "edge_b = \<lparr>edgeKeywords = [''b''], childNode = Some 1\<rparr>"

definition edge_c_to_r :: GraphEdge where
  "edge_c_to_r =
     \<lparr>edgeKeywords = [''c'', ''d'', ''e'', ''f'', ''g'', ''h'', ''i'', ''j'', ''k'', ''l'', ''m'',
                       ''n'', ''o'', ''p'', ''q'', ''r''],
      childNode = Some 2\<rparr>"

definition tie17_graph :: Graph where
  "tie17_graph =
     \<lparr>nodes = [0 \<mapsto> node_root, 1 \<mapsto> node_weather, 2 \<mapsto> node_weather],
      edges = [0 \<mapsto> edge_b, 1 \<mapsto> edge_c_to_r]\<rparr>"

definition tie17_world :: world where
  "tie17_world =
     \<lparr>bot = \<lparr>image = Some 7, currentNode = Some 0, rootNode = Some 0, chatLogic = Some 9\<rparr>,
      graph = tie17_graph, sent = []\<rparr>"

definition high_draw :: draw where
  "high_draw lo hi = hi"

definition weather_world :: world where
  "weather_world = example_world\<lparr>bot := (bot example_world)\<lparr>currentNode := Some 1\<rparr>\<rparr>"

definition bots_example :: bots where
  "bots_example =
     (\<lambda>a. if a = 1 then \<lparr>image = Some 10, currentNode = Some 20, rootNode = Some 30,
                          chatLogic = Some 40\<rparr>
          else null_bot)"

section \<open>Move semantics\<close>

lemma move_handles_source:
  "this \<noteq> source \<Longrightarrow> move_handles s this source source = null_bot"
  by (simp add: move_handles_def Let_def set_image_def set_currentNode_def
      set_rootNode_def set_chatLogic_def null_bot_def)

lemma move_handles_target:
  "this \<noteq> source \<Longrightarrow> move_handles s this source this = s source"
  by (simp add: move_handles_def Let_def set_image_def set_currentNode_def
      set_rootNode_def set_chatLogic_def)

lemma move_handles_other:
  "a \<noteq> this \<Longrightarrow> a \<noteq> source \<Longrightarrow> move_handles s this source a = s a"
  by (simp add: move_handles_def Let_def set_image_def set_currentNode_def
      set_rootNode_def set_chatLogic_def)

text \<open>
  Claim C10. After the move constructor or the move assignment operator, with the source
  object distinct from the target, the four handles of the moved-from object are null and
  the target holds the four handle values the source held before the move.
\<close>

theorem move_transfers_handles:
  assumes "this \<noteq> source"
  shows "move_constructor s this source source = null_bot
       \<and> move_constructor s this source this = s source
       \<and> move_assign s this source source = null_bot
       \<and> move_assign s this source this = s source"
  using assms
  by (simp add: move_constructor_def move_assign_def move_handles_source move_handles_target)

theorem move_transfers_handles_witness:
  "(0::nat) \<noteq> 1
   \<and> move_constructor bots_example 0 1 1 = null_bot
   \<and> move_constructor bots_example 0 1 0
       = \<lparr>image = Some 10, currentNode = Some 20, rootNode = Some 30, chatLogic = Some 40\<rparr>
   \<and> move_assign bots_example 0 1 1 = null_bot
   \<and> move_assign bots_example 0 1 0
       = \<lparr>image = Some 10, currentNode = Some 20, rootNode = Some 30, chatLogic = Some 40\<rparr>"
  using move_transfers_handles [of 0 1 bots_example]
  by (simp add: bots_example_def)

section \<open>Facts about the loops, the sort and the conversions\<close>

lemma keyword_loop_eq:
  "keyword_loop a ks msg acc = acc @ map (\<lambda>k. (a, ComputeLevenshteinDistance k msg)) ks"
  by (induction ks arbitrary: acc) simp_all

lemma edge_loop_eq:
  assumes "list_all2 (\<lambda>x e. edges g x = Some e) (childEdges node) es"
  shows "i \<le> length (childEdges node) \<Longrightarrow>
     edge_loop g node i msg acc =
       Inr (acc @ concat (map2 (\<lambda>x e. map (\<lambda>k. (x, ComputeLevenshteinDistance k msg)) (edgeKeywords e))
                           (drop i (childEdges node)) (drop i es)))"
proof (induction "length (childEdges node) - i" arbitrary: i acc)
  case 0
  then show ?case by (subst edge_loop.simps) simp
next
  case (Suc d)
  from assms have len: "length es = length (childEdges node)"
    by (simp add: list_all2_lengthD)
  from Suc have lt: "i < length (childEdges node)" by simp
  have ei: "edges g (childEdges node ! i) = Some (es ! i)"
    using list_all2_nthD [OF assms lt] .
  have d1: "drop i (childEdges node) = childEdges node ! i # drop (Suc i) (childEdges node)"
    using lt by (simp add: Cons_nth_drop_Suc)
  have d2: "drop i es = es ! i # drop (Suc i) es"
    using lt len by (simp add: Cons_nth_drop_Suc)
  have "d = length (childEdges node) - Suc i" using Suc by simp
  from Suc.hyps(1)[OF this] lt
  have ih: "\<And>acc. edge_loop g node (Suc i) msg acc =
       Inr (acc @ concat (map2 (\<lambda>x e. map (\<lambda>k. (x, ComputeLevenshteinDistance k msg)) (edgeKeywords e))
                           (drop (Suc i) (childEdges node)) (drop (Suc i) es)))"
    by simp
  show ?case
    by (subst edge_loop.simps) (simp add: lt ei ih keyword_loop_eq d1 d2)
qed

lemma std_sort_front:
  assumes "std_sort srt" and "xs \<noteq> []"
  shows "\<exists>best others. srt xs = best # others \<and> best \<in> set xs \<and> (\<forall>q\<in>set xs. snd best \<le> snd q)"
proof -
  from assms(1) have m: "mset (srt xs) = mset xs" and s: "sorted (map snd (srt xs))"
    by (simp_all add: std_sort_def)
  from m have st: "set (srt xs) = set xs" by (rule mset_eq_setD)
  with assms(2) have "srt xs \<noteq> []" by auto
  then obtain best others where c: "srt xs = best # others" by (cases "srt xs") auto
  with s st show ?thesis by auto
qed

lemma std_sort_sort_key: "std_sort (sort_key snd)"
  by (simp add: std_sort_def)


lemma collected_fst:
  assumes "list_all2 (\<lambda>x e. edges g x = Some e) (childEdges node) es"
    and "edge_loop g node 0 msg [] = Inr levDists" and "p \<in> set levDists"
  shows "\<exists>e k. fst p \<in> set (childEdges node) \<and> edges g (fst p) = Some e \<and> k \<in> set (edgeKeywords e)
           \<and> snd p = ComputeLevenshteinDistance k msg"
proof -
  from edge_loop_eq [OF assms(1), of 0 msg "[]"] assms(2)
  have "levDists = concat (map2 (\<lambda>x e. map (\<lambda>k. (x, ComputeLevenshteinDistance k msg)) (edgeKeywords e))
                           (childEdges node) es)"
    by simp
  with assms(3) obtain x e k where xe: "(x, e) \<in> set (zip (childEdges node) es)"
    and k: "k \<in> set (edgeKeywords e)" and p: "p = (x, ComputeLevenshteinDistance k msg)"
    by auto
  from xe have "x \<in> set (childEdges node)" by (rule set_zip_leftD)
  moreover from xe assms(1) have "edges g x = Some e"
    by (auto simp: list_all2_iff)
  ultimately show ?thesis using k p by auto
qed

lemma collected_complete:
  assumes "list_all2 (\<lambda>x e. edges g x = Some e) (childEdges node) es"
    and "edge_loop g node 0 msg [] = Inr levDists"
    and "x \<in> set (childEdges node)" and "edges g x = Some e" and "k \<in> set (edgeKeywords e)"
  shows "(x, ComputeLevenshteinDistance k msg) \<in> set levDists"
proof -
  from edge_loop_eq [OF assms(1), of 0 msg "[]"] assms(2)
  have l: "levDists = concat (map2 (\<lambda>x e. map (\<lambda>k. (x, ComputeLevenshteinDistance k msg)) (edgeKeywords e))
                           (childEdges node) es)"
    by simp
  from assms(1) have len: "length (childEdges node) = length es" by (rule list_all2_lengthD)
  from assms(3) obtain i where i: "i < length (childEdges node)" "childEdges node ! i = x"
    by (auto simp: in_set_conv_nth)
  from list_all2_nthD [OF assms(1) i(1)] i(2) assms(4) have "es ! i = e" by simp
  with i len have "(x, e) \<in> set (zip (childEdges node) es)"
    by (auto simp: set_zip)
  with assms(5) show ?thesis unfolding l by force
qed

lemma int_of_size_t_small: "n < 2 ^ 31 \<Longrightarrow> int_of_size_t n = int n"
  unfolding int_of_size_t_def
  by (simp add: signed_of_nat signed_take_bit_int_eq_self)

lemma size_minus_one_pos: "0 < n \<Longrightarrow> n < 2 ^ 64 \<Longrightarrow> size_minus_one n = n - 1"
proof -
  assume pos: "0 < n" and lt: "n < 2 ^ 64"
  from pos obtain m where n: "n = Suc m" by (cases n) auto
  have "Suc m + 2 ^ 64 - 1 = m + 2 ^ 64" by simp
  then have "(Suc m + 2 ^ 64 - 1) mod 2 ^ 64 = m mod 2 ^ 64"
    by (simp only: mod_add_self2)
  with lt n show ?thesis by (simp add: size_minus_one_def)
qed





section \<open>The recurrence is the edit distance\<close>

lemma lev_Nil2 [simp]: "lev xs [] = length xs"
  by (cases xs) simp_all

lemma lev_sym: "lev xs ys = lev ys xs"
  by (induction xs ys rule: lev.induct) (simp_all add: min.commute eq_commute)

lemma lev_cons1: "lev (x # xs) ys \<le> lev xs ys + 1"
  by (cases ys) simp_all

lemma lev_cons2: "lev xs (y # ys) \<le> lev xs ys + 1"
  by (cases xs) simp_all

lemma lev_uncons1: "lev xs ys \<le> lev (x # xs) ys + 1"
proof (induction ys)
  case Nil
  then show ?case by simp
next
  case (Cons y ys)
  have "lev xs (y # ys) \<le> lev xs ys + 1" by (rule lev_cons2)
  with Cons show ?case by simp
qed

lemma lev_uncons2: "lev xs ys \<le> lev xs (y # ys) + 1"
  using lev_uncons1 [of ys xs y] by (simp add: lev_sym)

lemma lev_same_head: "lev (x # xs) (x # ys) = lev xs ys"
  using lev_uncons1 [of xs ys x] lev_uncons2 [of xs ys x] by simp

lemma lev_other_head:
  "x \<noteq> y \<Longrightarrow> lev (x # xs) (y # ys) = min (lev (x # xs) ys) (min (lev xs (y # ys)) (lev xs ys)) + 1"
  by (simp add: min_def)

lemma lev_subst1: "lev (c # t) zs \<le> lev (d # t) zs + 1"
proof (induction zs)
  case Nil
  then show ?case by simp
next
  case (Cons z zs)
  then show ?case by (simp add: min_def)
qed

lemma lev_edit1: "edit1 xs ys \<Longrightarrow> lev xs zs \<le> lev ys zs + 1"
proof (induction xs ys arbitrary: zs rule: edit1.induct)
  case (insert xs c)
  show ?case by (rule lev_uncons1)
next
  case (delete c xs)
  show ?case by (rule lev_cons1)
next
  case (substitute c d xs)
  show ?case by (rule lev_subst1)
next
  case (later xs ys c)
  show ?case
  proof (induction zs)
    case Nil
    from later.IH [of "[]"] show ?case by simp
  next
    case (Cons z zs)
    from later.IH [of "z # zs"] later.IH [of zs] Cons show ?case
      by (simp add: min_def)
  qed
qed

lemma edits_lower: "edits k xs ys \<Longrightarrow> lev xs ys \<le> k"
proof (induction k xs ys rule: edits.induct)
  case (none xs)
  show ?case by (induction xs) simp_all
next
  case (more xs ys k zs)
  from lev_edit1 [OF more.hyps(1), of zs] more.IH show ?case by simp
qed

lemma edits_later: "edits k xs ys \<Longrightarrow> edits k (c # xs) (c # ys)"
  by (induction k xs ys rule: edits.induct) (auto intro: edits.intros edit1.intros)

lemma edits_snoc: "edits k xs ys \<Longrightarrow> edit1 ys zs \<Longrightarrow> edits (Suc k) xs zs"
  by (induction k xs ys rule: edits.induct) (auto intro: edits.intros)

lemma edits_from_Nil: "edits (length ys) [] ys"
proof (induction ys)
  case Nil
  show ?case by (simp add: edits.none)
next
  case (Cons y ys)
  have "edit1 [] [y]" by (rule edit1.insert)
  moreover from Cons have "edits (length ys) [y] (y # ys)" by (rule edits_later)
  ultimately show ?case by (simp add: edits.more)
qed

lemma edits_to_Nil: "edits (length xs) xs []"
  by (induction xs) (auto intro: edits.intros edit1.intros)

lemma edits_upper: "edits (lev xs ys) xs ys"
proof (induction xs ys rule: lev.induct)
  case (1 ys)
  show ?case by (simp add: edits_from_Nil)
next
  case (2 x xs)
  show ?case using edits_to_Nil [of "x # xs"] by simp
next
  case (3 x xs y ys)
  have a: "edits (lev xs (y # ys) + 1) (x # xs) (y # ys)"
    using edits.more [OF edit1.delete "3.IH"(1)] by simp
  have b: "edits (lev (x # xs) ys + 1) (x # xs) (y # ys)"
    using edits_snoc [OF "3.IH"(2) edit1.insert] by simp
  have c: "edits (lev xs ys + (if x = y then 0 else 1)) (x # xs) (y # ys)"
  proof (cases "x = y")
    case True
    with edits_later [OF "3.IH"(3)] show ?thesis by simp
  next
    case False
    from edits.more [OF edit1.substitute [OF False] edits_later [OF "3.IH"(3)]]
    show ?thesis using False by simp
  qed
  from a b c show ?case by (simp add: min_def)
qed

lemma levenshtein_distance_lev: "levenshtein_distance (lev xs ys) xs ys"
  by (simp add: levenshtein_distance_def edits_upper edits_lower)

lemma levenshtein_distance_unique:
  "levenshtein_distance d xs ys \<Longrightarrow> levenshtein_distance d' xs ys \<Longrightarrow> d = d'"
  by (auto simp: levenshtein_distance_def intro: le_antisym)

lemma lev_le_max: "lev xs ys \<le> max (length xs) (length ys)"
  by (induction xs ys rule: lev.induct) (auto simp: min_def max_def)

section \<open>The rolling row computes the recurrence\<close>

lemma edit1_append_right: "edit1 xs ys \<Longrightarrow> edit1 (xs @ zs) (ys @ zs)"
  by (induction xs ys rule: edit1.induct) (auto intro: edit1.intros)

lemma edit1_append_left: "edit1 xs ys \<Longrightarrow> edit1 (zs @ xs) (zs @ ys)"
  by (induction zs) (auto intro: edit1.intros)

lemma edit1_rev: "edit1 xs ys \<Longrightarrow> edit1 (rev xs) (rev ys)"
proof (induction xs ys rule: edit1.induct)
  case (insert xs c)
  from edit1_append_left [OF edit1.insert [of "[]" c], of "rev xs"] show ?case by simp
next
  case (delete c xs)
  from edit1_append_left [OF edit1.delete [of c "[]"], of "rev xs"] show ?case by simp
next
  case (substitute c d xs)
  from edit1_append_left [OF edit1.substitute [OF substitute, of "[]"], of "rev xs"]
  show ?case by simp
next
  case (later xs ys c)
  from edit1_append_right [OF later.IH, of "[c]"] show ?case by simp
qed

lemma edits_rev: "edits k xs ys \<Longrightarrow> edits k (rev xs) (rev ys)"
  by (induction k xs ys rule: edits.induct) (auto intro: edits.intros edit1_rev)

lemma lev_rev: "lev (rev xs) (rev ys) = lev xs ys"
proof (rule le_antisym)
  show "lev (rev xs) (rev ys) \<le> lev xs ys"
    by (rule edits_lower [OF edits_rev [OF edits_upper]])
  from edits_rev [OF edits_upper [of "rev xs" "rev ys"]]
  show "lev xs ys \<le> lev (rev xs) (rev ys)"
    by (simp add: edits_lower)
qed

lemma lev_snoc_same: "lev (xs @ [x]) (ys @ [x]) = lev xs ys"
proof -
  have "lev (xs @ [x]) (ys @ [x]) = lev (rev (xs @ [x])) (rev (ys @ [x]))"
    by (simp only: lev_rev)
  also have "\<dots> = lev (x # rev xs) (x # rev ys)"
    by (simp only: rev_append rev.simps append.simps)
  also have "\<dots> = lev (rev xs) (rev ys)" by (rule lev_same_head)
  also have "\<dots> = lev xs ys" by (rule lev_rev)
  finally show ?thesis .
qed

lemma lev_snoc_other:
  assumes "x \<noteq> y"
  shows "lev (xs @ [x]) (ys @ [y]) = min (lev (xs @ [x]) ys) (min (lev xs (ys @ [y])) (lev xs ys)) + 1"
proof -
  have "lev (xs @ [x]) (ys @ [y]) = lev (x # rev xs) (y # rev ys)"
    using lev_rev [of "xs @ [x]" "ys @ [y]"] by simp
  also have "\<dots> = min (lev (x # rev xs) (rev ys)) (min (lev (rev xs) (y # rev ys)) (lev (rev xs) (rev ys))) + 1"
    by (rule lev_other_head [OF assms])
  also have "lev (x # rev xs) (rev ys) = lev (xs @ [x]) ys"
    using lev_rev [of "xs @ [x]" ys] by simp
  also have "lev (rev xs) (y # rev ys) = lev xs (ys @ [y])"
    using lev_rev [of xs "ys @ [y]"] by simp
  also have "lev (rev xs) (rev ys) = lev xs ys" by (rule lev_rev)
  finally show ?thesis .
qed

lemma length_row [simp]: "length (row p s2) = length s2 + 1"
  by (simp add: row_def)

lemma nth_row: "k \<le> length s2 \<Longrightarrow> row p s2 ! k = lev p (take k s2)"
  unfolding row_def by (simp add: nth_append less_Suc_eq_le del: upt_Suc)

lemma inner_loop_row:
  assumes "s2 = pre @ rest" and "j = length pre" and "length costs = length s2 + 1"
    and "\<And>k. k \<le> j \<Longrightarrow> costs ! k = lev (p @ [c]) (take k s2)"
    and "\<And>k. j < k \<Longrightarrow> k \<le> length s2 \<Longrightarrow> costs ! k = lev p (take k s2)"
    and "corner = lev p (take j s2)"
  shows "inner_loop c rest j corner costs = row (p @ [c]) s2"
  using assms
proof (induction rest arbitrary: pre j corner costs)
  case Nil
  show ?case
  proof (rule nth_equalityI)
    show "length (inner_loop c [] j corner costs) = length (row (p @ [c]) s2)"
      using Nil by simp
    fix k assume "k < length (inner_loop c [] j corner costs)"
    with Nil have "k \<le> j" by simp
    with Nil show "inner_loop c [] j corner costs ! k = row (p @ [c]) s2 ! k"
      by (simp add: nth_row)
  qed
next
  case (Cons c2 rest)
  let ?upper = "costs ! (j + 1)"
  let ?v = "if c = c2 then corner
            else (if costs ! j < (if ?upper < corner then ?upper else corner) then costs ! j
                  else (if ?upper < corner then ?upper else corner)) + 1"
  let ?costs' = "costs[j + 1 := ?v]"
  have jlt: "j < length s2" using Cons.prems(1,2) by simp
  have tj: "take j s2 = pre" using Cons.prems(1,2) by simp
  have tj1: "take (j + 1) s2 = pre @ [c2]" using Cons.prems(1,2) by simp
  have up: "?upper = lev p (pre @ [c2])"
    using Cons.prems(5) [of "j + 1"] jlt tj1 by simp
  have up': "costs ! Suc j = lev p (pre @ [c2])" using up by simp
  have cj: "costs ! j = lev (p @ [c]) pre"
    using Cons.prems(4) [of j] tj by simp
  have co: "corner = lev p pre" using Cons.prems(6) tj by simp
  have v: "?v = lev (p @ [c]) (pre @ [c2])"
  proof (cases "c = c2")
    case True
    then show ?thesis by (simp add: co lev_snoc_same)
  next
    case False
    then show ?thesis by (simp add: lev_snoc_other up' cj co min_def)
  qed
  have step: "inner_loop c (c2 # rest) j corner costs = inner_loop c rest (j + 1) ?upper ?costs'"
    by (simp add: Let_def)
  have "inner_loop c rest (j + 1) ?upper ?costs' = row (p @ [c]) s2"
  proof (rule Cons.IH [of "pre @ [c2]"])
    show "s2 = (pre @ [c2]) @ rest" using Cons.prems(1) by simp
    show "j + 1 = length (pre @ [c2])" using Cons.prems(2) by simp
    show "length ?costs' = length s2 + 1" using Cons.prems(3) by simp
    show "?upper = lev p (take (j + 1) s2)" using up tj1 by simp
  next
    fix k assume "k \<le> j + 1"
    show "?costs' ! k = lev (p @ [c]) (take k s2)"
    proof (cases "k = j + 1")
      case True
      then show ?thesis using v tj1 jlt Cons.prems(3) by simp
    next
      case False
      with \<open>k \<le> j + 1\<close> have "k \<le> j" by simp
      with False Cons.prems(4) [of k] show ?thesis by simp
    qed
  next
    fix k assume "j + 1 < k" and "k \<le> length s2"
    then show "?costs' ! k = lev p (take k s2)"
      using Cons.prems(5) [of k] by simp
  qed
  with step show ?case by simp
qed

lemma outer_loop_row:
  assumes "i = length p" and "costs = row p s2"
  shows "outer_loop rest s2 i costs = row (p @ rest) s2"
  using assms
proof (induction rest arbitrary: p i costs)
  case Nil
  then show ?case by simp
next
  case (Cons c rest)
  have "inner_loop c s2 0 i (costs[0 := i + 1]) = row (p @ [c]) s2"
  proof (rule inner_loop_row [of s2 "[]"])
    show "s2 = [] @ s2" by simp
    show "0 = length ([] :: 'a list)" by simp
    show "length (costs[0 := i + 1]) = length s2 + 1" using Cons.prems by simp
    show "i = lev p (take 0 s2)" using Cons.prems by simp
  next
    fix k :: nat assume "k \<le> 0"
    then show "costs[0 := i + 1] ! k = lev (p @ [c]) (take k s2)"
      using Cons.prems by simp
  next
    fix k :: nat assume "0 < k" and "k \<le> length s2"
    then show "costs[0 := i + 1] ! k = lev p (take k s2)"
      using Cons.prems by (simp add: nth_row)
  qed
  moreover have "outer_loop rest s2 (i + 1) (row (p @ [c]) s2) = row ((p @ [c]) @ rest) s2"
    by (rule Cons.IH) (simp_all add: Cons.prems)
  ultimately show ?case by simp
qed

lemma row_Nil: "row [] s2 = [0..<length s2 + 1]"
  by (rule nth_equalityI) (simp_all add: nth_row less_Suc_eq_le nth_append del: upt_Suc)

lemma outer_loop_lev: "outer_loop s1 s2 0 [0..<length s2 + 1] ! length s2 = lev s1 s2"
  using outer_loop_row [of 0 "[]" "[0..<length s2 + 1]" s2 s1]
  by (simp add: row_Nil nth_row)

lemma ComputeLevenshteinDistance_lev:
  "ComputeLevenshteinDistance a b = int_of_size_t (lev (map toupper a) (map toupper b))"
  unfolding ComputeLevenshteinDistance_def Let_def
  using outer_loop_lev [of "map toupper a" "map toupper b"]
  by simp

section \<open>The matcher returns the edit distance\<close>

text \<open>
  Claim C1, as amended. For strings \<open>a\<close> and \<open>b\<close> of fewer than \<open>2^31\<close> characters,
  \<open>ComputeLevenshteinDistance a b\<close> is a non-negative integer, and it is the edit
  distance of the two strings after \<open>toupper\<close> on every character: that many edits turn
  one into the other, and no fewer do. The distance between the empty string and a
  string is that string's length.
\<close>

theorem ComputeLevenshteinDistance_edit_distance:
  assumes "length a < 2 ^ 31" and "length b < 2 ^ 31"
  shows "0 \<le> ComputeLevenshteinDistance a b
       \<and> levenshtein_distance (nat (ComputeLevenshteinDistance a b)) (map toupper a) (map toupper b)
       \<and> ComputeLevenshteinDistance [] b = int (length b)
       \<and> ComputeLevenshteinDistance a [] = int (length a)"
proof -
  let ?d = "lev (map toupper a) (map toupper b)"
  have "?d \<le> max (length (map toupper a)) (length (map toupper b))" by (rule lev_le_max)
  with assms have "?d < 2 ^ 31" by simp
  then have d: "ComputeLevenshteinDistance a b = int ?d"
    by (simp add: ComputeLevenshteinDistance_lev int_of_size_t_small)
  have e1: "ComputeLevenshteinDistance [] b = int (length b)"
    using assms(2) by (simp add: ComputeLevenshteinDistance_lev int_of_size_t_small)
  have e2: "ComputeLevenshteinDistance a [] = int (length a)"
    using assms(1) by (simp add: ComputeLevenshteinDistance_lev int_of_size_t_small)
  from d e1 e2 levenshtein_distance_lev [of "map toupper a" "map toupper b"]
  show ?thesis by simp
qed

lemma toupper_kitten: "map toupper ''kitten'' = ''KITTEN''"
  by code_simp

lemma toupper_sitting: "map toupper ''sitting'' = ''SITTING''"
  by code_simp

lemma distance_kitten_sitting: "ComputeLevenshteinDistance ''kitten'' ''sitting'' = 3"
  by code_simp

theorem ComputeLevenshteinDistance_edit_distance_witness:
  "length ''kitten'' < 2 ^ 31 \<and> length ''sitting'' < 2 ^ 31
   \<and> ComputeLevenshteinDistance ''kitten'' ''sitting'' = 3
   \<and> levenshtein_distance 3 ''KITTEN'' ''SITTING''
   \<and> ComputeLevenshteinDistance [] ''sitting'' = 7
   \<and> ComputeLevenshteinDistance ''kitten'' [] = 6"
proof -
  have h1: "length ''kitten'' < 2 ^ 31" by simp
  have h2: "length ''sitting'' < 2 ^ 31" by simp
  note ComputeLevenshteinDistance_edit_distance [OF h1 h2,
      unfolded toupper_kitten toupper_sitting distance_kitten_sitting]
  with h1 h2 distance_kitten_sitting show ?thesis by simp
qed


text \<open>
  The claim as stated, for all strings, fails where the distance does not fit the
  \<open>int\<close> that the function returns: for the empty string and a string of \<open>2^31\<close>
  characters the function returns at \<open>return n\<close>, and the result is negative.
\<close>

theorem ComputeLevenshteinDistance_negative:
  "length (replicate (2 ^ 31) (CHR ''a'')) = 2 ^ 31
   \<and> ComputeLevenshteinDistance [] (replicate (2 ^ 31) (CHR ''a'')) = - 2147483648"
proof -
  have "length (map toupper (replicate (2 ^ 31) (CHR ''a''))) = 2 ^ 31"
    by (simp only: length_map length_replicate)
  then have "ComputeLevenshteinDistance [] (replicate (2 ^ 31) (CHR ''a'')) = int_of_size_t (2 ^ 31)"
    unfolding ComputeLevenshteinDistance_def Let_def
    by (simp only: list.map list.size simp_thms if_True)
  also have "\<dots> = - 2147483648" by (simp add: int_of_size_t_def)
  finally show ?thesis by (simp only: length_replicate simp_thms)
qed

lemma size_minus_one_zero: "int_of_size_t (size_minus_one 0) = - 1"
  by (simp add: size_minus_one_def int_of_size_t_def)

lemma SetCurrentNode_no_answers:
  assumes "nodes (graph w) a = Some n" and "answers n = []"
  shows "SetCurrentNode rnd w (Some a)
           = Inl (UndefinedBehaviour, w\<lparr>bot := (bot w)\<lparr>currentNode := Some a\<rparr>\<rparr>)"
  using assms by (simp add: SetCurrentNode_def Let_def size_minus_one_zero)

lemma SetCurrentNode_currentNode:
  "currentNode (bot (final_world (SetCurrentNode rnd w node))) = node"
  by (simp add: SetCurrentNode_def final_world_def Let_def split: option.splits)

section \<open>The examples, evaluated\<close>

lemmas example_defs = example_world_def example_graph_def node_root_def node_weather_def
  node_joke_def edge_weather_def edge_joke_def tie_world_def tie_graph_def edge_ab_def edge_ba_def
  weather_world_def tie17_world_def tie17_graph_def edge_b_def edge_c_to_r_def

lemma uniform_low_draw: "uniform_int_distribution low_draw"
  by (simp add: uniform_int_distribution_def low_draw_def)

lemma distance_weather_whether: "ComputeLevenshteinDistance ''weather'' ''whether'' = 2"
  by code_simp

lemma distance_joke_whether: "ComputeLevenshteinDistance ''joke'' ''whether'' = 6"
  by code_simp

lemma distance_funny_whether: "ComputeLevenshteinDistance ''funny'' ''whether'' = 7"
  by code_simp

lemma distance_ab_aa: "ComputeLevenshteinDistance ''ab'' ''aa'' = 1"
  by (simp add: ComputeLevenshteinDistance_def toupper_def int_of_size_t_def)

lemma distance_ba_aa: "ComputeLevenshteinDistance ''ba'' ''aa'' = 1"
  by (simp add: ComputeLevenshteinDistance_def toupper_def int_of_size_t_def)

lemmas example_distances = distance_weather_whether distance_joke_whether
  distance_funny_whether distance_ab_aa distance_ba_aa

lemma example_resolved:
  "list_all2 (\<lambda>x e. edges (graph example_world) x = Some e) (childEdges node_root)
     [edge_weather, edge_joke]"
  by (simp add: example_defs)



lemma example_turn:
  "ReceiveMessageFromUser (sort_key snd) (MoveChatbotToNewNode rnd) example_world ''whether''
     = MoveChatbotToNewNode rnd example_world (Some 1)"
  by (simp add: ReceiveMessageFromUser_def select_newNode_def example_defs edge_loop.simps
      example_distances)



lemma libstdcxx_sort_two_tied:
  "libstdcxx_sort sorted_range [(0, 1), (1, 1)] = [(0, 1), (1, 1)]"
  by code_simp


lemma arrive_weather_low:
  "SetCurrentNode low_draw example_world (Some 1)
     = Inr (example_world\<lparr>bot := (bot example_world)\<lparr>currentNode := Some 1\<rparr>,
                          sent := [''Sunny'']\<rparr>)"
  by (simp add: SetCurrentNode_def example_defs low_draw_def size_minus_one_def
      int_of_size_t_def)

lemma arrive_weather_high:
  "SetCurrentNode high_draw example_world (Some 1)
     = Inr (example_world\<lparr>bot := (bot example_world)\<lparr>currentNode := Some 1\<rparr>,
                          sent := [''Rainy'']\<rparr>)"
  by (simp add: SetCurrentNode_def example_defs high_draw_def size_minus_one_def
      int_of_size_t_def)

section \<open>Scoring: one pair per keyword\<close>

text \<open>
  Claim C6. When every child edge of the current node resolves to an edge object, the
  loops leave in \<open>levDists\<close>, for each child edge in order and for each keyword of that
  edge in order, exactly one pair of the edge and the matcher's distance between that
  keyword and the message: an edge with K keywords gives K pairs, an edge without
  keywords gives none.
\<close>

theorem one_pair_per_keyword:
  assumes "list_all2 (\<lambda>x e. edges g x = Some e) (childEdges node) es"
  shows "edge_loop g node 0 msg [] =
           Inr (concat (map2 (\<lambda>x e. map (\<lambda>k. (x, ComputeLevenshteinDistance k msg)) (edgeKeywords e))
                  (childEdges node) es))"
  using edge_loop_eq [OF assms, of 0 msg "[]"] by simp

theorem one_pair_per_keyword_witness:
  "list_all2 (\<lambda>x e. edges (graph example_world) x = Some e) (childEdges node_root)
     [edge_weather, edge_joke]
   \<and> edge_loop (graph example_world) node_root 0 ''whether'' [] = Inr [(0, 2), (1, 6), (1, 7)]"
  using one_pair_per_keyword [OF example_resolved, of "''whether''"] example_resolved
  by (simp add: example_defs example_distances)

section \<open>Selection of the next Topic\<close>

text \<open>
  Claim C3. When the current node and its child edges resolve and some child edge has a
  keyword, then for every \<open>std::sort\<close> the turn hands to \<open>MoveChatbotToNewNode\<close> the
  child node of an edge one of whose keywords is at the least distance from the message
  among all keywords of all child edges; with \<open>MoveChatbotToNewNode\<close> as the
  specification describes it, that node is the current node after the turn. No bound on
  the distance is asked for: there is no threshold.
\<close>

theorem minimum_distance_transition_wins:
  assumes "std_sort srt"
    and "currentNode (bot w) = Some a" and "nodes (graph w) a = Some node"
    and "list_all2 (\<lambda>x e. edges (graph w) x = Some e) (childEdges node) es"
    and "\<exists>e\<in>set es. edgeKeywords e \<noteq> []"
  shows "\<exists>x e k. x \<in> set (childEdges node) \<and> edges (graph w) x = Some e \<and> k \<in> set (edgeKeywords e)
       \<and> (\<forall>x' e' k'. x' \<in> set (childEdges node) \<and> edges (graph w) x' = Some e' \<and> k' \<in> set (edgeKeywords e')
            \<longrightarrow> ComputeLevenshteinDistance k msg \<le> ComputeLevenshteinDistance k' msg)
       \<and> ReceiveMessageFromUser srt move w msg = move w (childNode e)
       \<and> currentNode (bot (final_world (ReceiveMessageFromUser srt (MoveChatbotToNewNode rnd) w msg)))
           = childNode e"
proof -
  define levDists where "levDists =
     concat (map2 (\<lambda>x e. map (\<lambda>k. (x, ComputeLevenshteinDistance k msg)) (edgeKeywords e))
                  (childEdges node) es)"
  have el: "edge_loop (graph w) node 0 msg [] = Inr levDists"
    using edge_loop_eq [OF assms(4), of 0 msg "[]"] by (simp add: levDists_def)
  from assms(5) obtain e0 k0 where e0: "e0 \<in> set es" and k0: "k0 \<in> set (edgeKeywords e0)"
    by (meson last_in_set)
  from assms(4) have len: "length (childEdges node) = length es" by (rule list_all2_lengthD)
  from e0 obtain i where i: "i < length es" "es ! i = e0" by (auto simp: in_set_conv_nth)
  with len have "childEdges node ! i \<in> set (childEdges node)" by simp
  moreover from list_all2_nthD [OF assms(4)] i len
  have "edges (graph w) (childEdges node ! i) = Some e0" by simp
  ultimately have "(childEdges node ! i, ComputeLevenshteinDistance k0 msg) \<in> set levDists"
    using collected_complete [OF assms(4) el] k0 by blast
  then have ne: "levDists \<noteq> []" by auto
  from std_sort_front [OF assms(1) ne] obtain best others where
    s: "srt levDists = best # others" and b: "best \<in> set levDists"
    and m: "\<forall>q\<in>set levDists. snd best \<le> snd q" by blast
  from collected_fst [OF assms(4) el b] obtain e k where
    x: "fst best \<in> set (childEdges node)" and e: "edges (graph w) (fst best) = Some e"
    and k: "k \<in> set (edgeKeywords e)" and d: "snd best = ComputeLevenshteinDistance k msg"
    by blast
  have least: "ComputeLevenshteinDistance k msg \<le> ComputeLevenshteinDistance k' msg"
    if "x' \<in> set (childEdges node)" "edges (graph w) x' = Some e'" "k' \<in> set (edgeKeywords e')"
    for x' e' k'
  proof -
    from collected_complete [OF assms(4) el that]
    have "(x', ComputeLevenshteinDistance k' msg) \<in> set levDists" .
    with m d show ?thesis by force
  qed
  have r: "ReceiveMessageFromUser srt mv w msg = mv w (childNode e)" for mv
    using assms(2,3) el ne s e by (simp add: ReceiveMessageFromUser_def select_newNode_def)
  have "currentNode (bot (final_world (ReceiveMessageFromUser srt (MoveChatbotToNewNode rnd) w msg)))
      = childNode e"
    by (simp only: r MoveChatbotToNewNode_def SetCurrentNode_currentNode)
  with x e k least r [of move] show ?thesis by blast
qed

theorem minimum_distance_transition_wins_witness:
  "std_sort (sort_key snd)
   \<and> currentNode (bot example_world) = Some 0
   \<and> nodes (graph example_world) 0 = Some node_root
   \<and> list_all2 (\<lambda>x e. edges (graph example_world) x = Some e) (childEdges node_root)
        [edge_weather, edge_joke]
   \<and> (\<exists>e\<in>set [edge_weather, edge_joke]. edgeKeywords e \<noteq> [])
   \<and> (\<exists>x e k. x \<in> set (childEdges node_root) \<and> edges (graph example_world) x = Some e
         \<and> k \<in> set (edgeKeywords e)
         \<and> (\<forall>x' e' k'. x' \<in> set (childEdges node_root) \<and> edges (graph example_world) x' = Some e'
                \<and> k' \<in> set (edgeKeywords e')
              \<longrightarrow> ComputeLevenshteinDistance k ''whether'' \<le> ComputeLevenshteinDistance k' ''whether'')
         \<and> ReceiveMessageFromUser (sort_key snd) (MoveChatbotToNewNode low_draw) example_world ''whether''
             = MoveChatbotToNewNode low_draw example_world (childNode e)
         \<and> currentNode (bot (final_world (ReceiveMessageFromUser (sort_key snd)
               (MoveChatbotToNewNode low_draw) example_world ''whether''))) = childNode e)
   \<and> ReceiveMessageFromUser (sort_key snd) (MoveChatbotToNewNode low_draw) example_world ''whether''
       = Inr (example_world\<lparr>bot := (bot example_world)\<lparr>currentNode := Some 1\<rparr>,
                            sent := [''Sunny'']\<rparr>)"
proof -
  have h2: "currentNode (bot example_world) = Some 0" by (simp add: example_defs)
  have h3: "nodes (graph example_world) 0 = Some node_root" by (simp add: example_defs)
  have h5: "\<exists>e\<in>set [edge_weather, edge_joke]. edgeKeywords e \<noteq> []" by (simp add: example_defs)
  note minimum_distance_transition_wins [OF std_sort_sort_key h2 h3 example_resolved h5,
      of "''whether''" "MoveChatbotToNewNode low_draw" low_draw]
  moreover have "ReceiveMessageFromUser (sort_key snd) (MoveChatbotToNewNode low_draw) example_world ''whether''
       = Inr (example_world\<lparr>bot := (bot example_world)\<lparr>currentNode := Some 1\<rparr>,
                            sent := [''Sunny'']\<rparr>)"
    by (simp only: example_turn MoveChatbotToNewNode_def arrive_weather_low)
  ultimately show ?thesis using std_sort_sort_key h2 h3 example_resolved h5 by blast
qed




text \<open>
  Claim C4. When the current node has no child edges, the turn hands the root node to
  \<open>MoveChatbotToNewNode\<close>, whatever the message and the sort; with
  \<open>MoveChatbotToNewNode\<close> as the specification describes it, the root node is the
  current node after the turn.
\<close>

theorem no_transitions_restart_at_root:
  assumes "currentNode (bot w) = Some a" and "nodes (graph w) a = Some node"
    and "childEdges node = []"
  shows "ReceiveMessageFromUser srt move w msg = move w (rootNode (bot w))
       \<and> currentNode (bot (final_world (ReceiveMessageFromUser srt (MoveChatbotToNewNode rnd) w msg)))
           = rootNode (bot w)"
proof -
  have r: "ReceiveMessageFromUser srt mv w msg = mv w (rootNode (bot w))" for mv
    using assms by (simp add: ReceiveMessageFromUser_def edge_loop.simps select_newNode_def)
  have "currentNode (bot (final_world (ReceiveMessageFromUser srt (MoveChatbotToNewNode rnd) w msg)))
      = rootNode (bot w)"
    by (simp only: r MoveChatbotToNewNode_def SetCurrentNode_currentNode)
  with r [of move] show ?thesis by simp
qed

theorem no_transitions_restart_at_root_witness:
  "currentNode (bot weather_world) = Some 1
   \<and> nodes (graph weather_world) 1 = Some node_weather
   \<and> childEdges node_weather = []
   \<and> ReceiveMessageFromUser (sort_key snd) (MoveChatbotToNewNode low_draw) weather_world ''hello''
       = MoveChatbotToNewNode low_draw weather_world (Some 0)
   \<and> currentNode (bot (final_world (ReceiveMessageFromUser (sort_key snd)
         (MoveChatbotToNewNode low_draw) weather_world ''hello''))) = Some 0"
proof -
  have h1: "currentNode (bot weather_world) = Some 1" by (simp add: example_defs)
  have h2: "nodes (graph weather_world) 1 = Some node_weather" by (simp add: example_defs)
  have h3: "childEdges node_weather = []" by (simp add: example_defs)
  have rt: "rootNode (bot weather_world) = Some 0" by (simp add: example_defs)
  note no_transitions_restart_at_root [OF h1 h2 h3, of "sort_key snd"
      "MoveChatbotToNewNode low_draw" "''hello''" low_draw, unfolded rt]
  with h1 h2 h3 show ?thesis by blast
qed

text \<open>
  Claim C5. The Topic a turn arrives at does not depend on the numbers drawn: two turns
  from the same state with the same message, the same graph and the same sort end with
  the same current node whatever the two random sources are, and \<open>SetCurrentNode\<close>
  always ends with the node it was given as current node.
\<close>

theorem next_topic_independent_of_draw:
  "currentNode (bot (final_world (ReceiveMessageFromUser srt (MoveChatbotToNewNode rnd1) w msg)))
     = currentNode (bot (final_world (ReceiveMessageFromUser srt (MoveChatbotToNewNode rnd2) w msg)))
   \<and> currentNode (bot (final_world (SetCurrentNode rnd1 w node))) = node"
  by (simp add: ReceiveMessageFromUser_def MoveChatbotToNewNode_def SetCurrentNode_def final_world_def
      Let_def split: option.splits sum.splits)

theorem next_topic_independent_of_draw_witness:
  "ReceiveMessageFromUser (sort_key snd) (MoveChatbotToNewNode low_draw) example_world ''whether''
     = Inr (example_world\<lparr>bot := (bot example_world)\<lparr>currentNode := Some 1\<rparr>, sent := [''Sunny'']\<rparr>)
   \<and> ReceiveMessageFromUser (sort_key snd) (MoveChatbotToNewNode high_draw) example_world ''whether''
     = Inr (example_world\<lparr>bot := (bot example_world)\<lparr>currentNode := Some 1\<rparr>, sent := [''Rainy'']\<rparr>)
   \<and> currentNode (bot (final_world
        (ReceiveMessageFromUser (sort_key snd) (MoveChatbotToNewNode low_draw) example_world ''whether'')))
     = currentNode (bot (final_world
        (ReceiveMessageFromUser (sort_key snd) (MoveChatbotToNewNode high_draw) example_world ''whether'')))"
  using next_topic_independent_of_draw [of "sort_key snd" low_draw example_world "''whether''" high_draw]
  by (simp only: example_turn MoveChatbotToNewNode_def arrive_weather_low arrive_weather_high simp_thms)

section \<open>Response emission\<close>

text \<open>
  Claim C7. On arrival at a node that resolves, with at least one and at most \<open>2^31\<close>
  response texts, a chat logic handle that is not null and a random source that keeps the
  library's promise, \<open>SetCurrentNode\<close> ends normally, the node is the current node, and
  exactly one text has been handed to the output sink: an element of the node's response
  texts.
\<close>

theorem arrival_sends_one_answer:
  assumes "uniform_int_distribution rnd" and "nodes (graph w) a = Some n"
    and "answers n \<noteq> []" and "length (answers n) \<le> 2 ^ 31" and "chatLogic (bot w) \<noteq> None"
  shows "\<exists>t\<in>set (answers n).
           SetCurrentNode rnd w (Some a) = Inr (w\<lparr>bot := (bot w)\<lparr>currentNode := Some a\<rparr>, sent := sent w @ [t]\<rparr>)"
proof -
  let ?len = "length (answers n)"
  from assms(3) have pos: "0 < ?len" by simp
  from assms(4) have "?len < 2 ^ 64" by simp
  with pos have "size_minus_one ?len = ?len - 1" by (rule size_minus_one_pos)
  moreover from pos assms(4) have "?len - 1 < 2 ^ 31" by simp
  ultimately have "int_of_size_t (size_minus_one ?len) = int (?len - 1)"
    by (simp add: int_of_size_t_small)
  moreover from pos have "int (?len - 1) = int ?len - 1" by linarith
  ultimately have hi: "int_of_size_t (size_minus_one ?len) = int ?len - 1"
    by (simp only:)
  define k where "k = rnd 0 (int ?len - 1)"
  from pos have "(0::int) \<le> int ?len - 1" by linarith
  with assms(1) have "0 \<le> k \<and> k \<le> int ?len - 1"
    unfolding k_def uniform_int_distribution_def by blast
  with pos have k: "0 \<le> k" "nat k < ?len" by linarith+
  then have "answers n ! nat k \<in> set (answers n)" by simp
  moreover have "SetCurrentNode rnd w (Some a)
      = Inr (w\<lparr>bot := (bot w)\<lparr>currentNode := Some a\<rparr>, sent := sent w @ [answers n ! nat k]\<rparr>)"
    using assms(2,5) k hi by (auto simp: SetCurrentNode_def Let_def k_def)
  ultimately show ?thesis by blast
qed

theorem arrival_sends_one_answer_witness:
  "uniform_int_distribution low_draw
   \<and> nodes (graph example_world) 1 = Some node_weather
   \<and> answers node_weather \<noteq> [] \<and> length (answers node_weather) \<le> 2 ^ 31
   \<and> chatLogic (bot example_world) \<noteq> None
   \<and> (\<exists>t\<in>set (answers node_weather).
         SetCurrentNode low_draw example_world (Some 1)
           = Inr (example_world\<lparr>bot := (bot example_world)\<lparr>currentNode := Some 1\<rparr>,
                                sent := sent example_world @ [t]\<rparr>))
   \<and> SetCurrentNode low_draw example_world (Some 1)
       = Inr (example_world\<lparr>bot := (bot example_world)\<lparr>currentNode := Some 1\<rparr>,
                            sent := [''Sunny'']\<rparr>)"
proof -
  have h2: "nodes (graph example_world) 1 = Some node_weather" by (simp add: example_defs)
  have h3: "answers node_weather \<noteq> []" by (simp add: example_defs)
  have h4: "length (answers node_weather) \<le> 2 ^ 31" by (simp add: example_defs)
  have h5: "chatLogic (bot example_world) \<noteq> None" by (simp add: example_defs)
  from arrival_sends_one_answer [OF uniform_low_draw h2 h3 h4 h5] uniform_low_draw h2 h3 h4 h5
    arrive_weather_low
  show ?thesis by blast
qed

text \<open>
  Claim C8 asks that arrival at a node without response texts fails as an error
  surfaced to the caller. The code does not do that: \<open>answers.size() - 1\<close> wraps to the
  largest \<open>size_t\<close>, the bound of the distribution is \<open>-1\<close>, and
  \<open>uniform_int_distribution<int>(0, -1)\<close> is outside the precondition of the library. The
  call ends in undefined behaviour, with the new node as current node and nothing handed
  to the output sink; \<open>answers.at\<close> and its \<open>std::out_of_range\<close> are not reached. Node 2
  of \<open>example_world\<close> is such a node.
\<close>

theorem empty_answers_undefined_behaviour:
  "nodes (graph example_world) 2 = Some node_joke
   \<and> answers node_joke = []
   \<and> int_of_size_t (size_minus_one (length (answers node_joke))) = - 1
   \<and> SetCurrentNode rnd example_world (Some 2)
       = Inl (UndefinedBehaviour, example_world\<lparr>bot := (bot example_world)\<lparr>currentNode := Some 2\<rparr>\<rparr>)"
proof -
  have h1: "nodes (graph example_world) 2 = Some node_joke" by (simp add: example_defs)
  have h2: "answers node_joke = []" by (simp add: example_defs)
  have h3: "int_of_size_t (size_minus_one (length (answers node_joke))) = - 1"
    by (simp add: h2 size_minus_one_zero)
  from SetCurrentNode_no_answers [OF h1 h2, of rnd] h1 h2 h3 show ?thesis by blast
qed

section \<open>What a turn leaves unchanged\<close>

text \<open>
  Claim C9. Whether it ends normally or not, a turn of \<open>ReceiveMessageFromUser\<close> (with
  \<open>MoveChatbotToNewNode\<close> as the specification describes it) and a call of
  \<open>SetCurrentNode\<close> leave the root node handle, the image handle, the chat logic handle
  and the graph as they were.
\<close>

theorem turn_changes_only_position:
  "rootNode (bot (final_world (ReceiveMessageFromUser srt (MoveChatbotToNewNode rnd) w msg))) = rootNode (bot w)
 \<and> image (bot (final_world (ReceiveMessageFromUser srt (MoveChatbotToNewNode rnd) w msg))) = image (bot w)
 \<and> chatLogic (bot (final_world (ReceiveMessageFromUser srt (MoveChatbotToNewNode rnd) w msg))) = chatLogic (bot w)
 \<and> graph (final_world (ReceiveMessageFromUser srt (MoveChatbotToNewNode rnd) w msg)) = graph w
 \<and> rootNode (bot (final_world (SetCurrentNode rnd w node))) = rootNode (bot w)
 \<and> image (bot (final_world (SetCurrentNode rnd w node))) = image (bot w)
 \<and> chatLogic (bot (final_world (SetCurrentNode rnd w node))) = chatLogic (bot w)
 \<and> graph (final_world (SetCurrentNode rnd w node)) = graph w"
  by (simp add: ReceiveMessageFromUser_def MoveChatbotToNewNode_def SetCurrentNode_def final_world_def
      Let_def split: option.splits sum.splits)

theorem turn_changes_only_position_witness:
  "final_world (ReceiveMessageFromUser (sort_key snd) (MoveChatbotToNewNode low_draw) example_world ''whether'')
     = example_world\<lparr>bot := (bot example_world)\<lparr>currentNode := Some 1\<rparr>, sent := [''Sunny'']\<rparr>
   \<and> rootNode (bot (final_world
        (ReceiveMessageFromUser (sort_key snd) (MoveChatbotToNewNode low_draw) example_world ''whether'')))
       = Some 0
   \<and> image (bot (final_world
        (ReceiveMessageFromUser (sort_key snd) (MoveChatbotToNewNode low_draw) example_world ''whether'')))
       = Some 7
   \<and> chatLogic (bot (final_world
        (ReceiveMessageFromUser (sort_key snd) (MoveChatbotToNewNode low_draw) example_world ''whether'')))
       = Some 9
   \<and> graph (final_world
        (ReceiveMessageFromUser (sort_key snd) (MoveChatbotToNewNode low_draw) example_world ''whether''))
       = example_graph"
proof -
  have "final_world (ReceiveMessageFromUser (sort_key snd) (MoveChatbotToNewNode low_draw) example_world ''whether'')
     = example_world\<lparr>bot := (bot example_world)\<lparr>currentNode := Some 1\<rparr>, sent := [''Sunny'']\<rparr>"
    by (simp only: example_turn MoveChatbotToNewNode_def arrive_weather_low final_world_def sum.case)
  moreover have "rootNode (bot example_world) = Some 0 \<and> image (bot example_world) = Some 7
     \<and> chatLogic (bot example_world) = Some 9 \<and> graph example_world = example_graph"
    by (simp add: example_world_def)
  ultimately show ?thesis
    using turn_changes_only_position [of "sort_key snd" low_draw example_world "''whether''" None]
    by simp
qed

end
